theory Spec2Isabelle
  imports Complex_Main
begin

section \<open>Data model\<close>

text \<open>
  The exporter (\<^verbatim>\<open>main.go\<close>, the version with the retry loop and the \<^verbatim>\<open>/execute\<close>
  endpoint) keeps five labelled gauges, asks the PageSpeed Insights
  API for one (URL, strategy) target at a time and copies a few numbers out of the
  decoded JSON body into the gauges. Everything the Go code does beyond returning a
  value is written out here: the gauge writes, the calls of \<^verbatim>\<open>http.Get\<close>, the sleeps,
  the log lines and the panics of unchecked type assertions.
\<close>

text \<open>
  \<^verbatim>\<open>float64\<close>: the code only copies the numbers of the response into the gauges and never
  computes with them, so a number is modelled by the real it denotes.
\<close>

type_synonym float64 = real

text \<open>
  \<^verbatim>\<open>time.Duration\<close> is a count of nanoseconds in an \<^verbatim>\<open>int64\<close>. The only arithmetic is the
  doubling of the backoff delay, at most five times from two seconds, far below \<open>2^63\<close>.
\<close>

type_synonym duration = int

definition Second :: duration where
  "Second = 1000000000"

text \<open>\<^verbatim>\<open>type target struct { URL string; Strategy string }\<close>\<close>

record target =
  URL :: string
  Strategy :: string

text \<open>
  What \<^verbatim>\<open>encoding/json\<close> stores in an \<^verbatim>\<open>interface{}\<close>: \<^verbatim>\<open>nil\<close>, \<^verbatim>\<open>bool\<close>, \<^verbatim>\<open>float64\<close>,
  \<^verbatim>\<open>string\<close>, \<^verbatim>\<open>[]interface{}\<close> or \<^verbatim>\<open>map[string]interface{}\<close>. A Go map is an association
  list read with \<open>map_of\<close>.
\<close>

datatype iface =
    INil
  | IBool bool
  | IFloat float64
  | IString string
  | IArray "iface list"
  | IMap "(string \<times> iface) list"

type_synonym jmap = "(string \<times> iface) list"

text \<open>\<^verbatim>\<open>m[k]\<close> on a \<^verbatim>\<open>map[string]interface{}\<close>: the zero value \<^verbatim>\<open>nil\<close> when the key is absent.\<close>

definition index_map :: "jmap \<Rightarrow> string \<Rightarrow> iface" where
  "index_map m k = (case map_of m k of None \<Rightarrow> INil | Some v \<Rightarrow> v)"

text \<open>The comma-ok type assertions \<^verbatim>\<open>x.(map[string]interface{})\<close> and \<^verbatim>\<open>x.(float64)\<close>.\<close>

fun as_map :: "iface \<Rightarrow> jmap option" where
  "as_map (IMap m) = Some m"
| "as_map _ = None"

fun as_float :: "iface \<Rightarrow> float64 option" where
  "as_float (IFloat v) = Some v"
| "as_float _ = None"

text \<open>
  The outcome of one \<^verbatim>\<open>http.Get\<close> followed by the JSON decoding into
  \<^verbatim>\<open>map[string]interface{}\<close>: a transport error, a body that does not decode, or the
  decoded map (a body \<^verbatim>\<open>null\<close> leaves the map nil, which reads like the empty map).
\<close>

datatype response = NetErr | DecodeErr | Body jmap

text \<open>The five gauge vectors \<^verbatim>\<open>perfScore\<close>, \<^verbatim>\<open>fcp\<close>, \<^verbatim>\<open>lcp\<close>, \<^verbatim>\<open>cls\<close>, \<^verbatim>\<open>tbt\<close>.\<close>

datatype metric = PerfScore | FCP | LCP | CLS | TBT

datatype log_msg =
    LogFetching string string
  | LogErrFetch
  | LogErrDecode
  | LogMissingLighthouseResult
  | LogMissingCategories
  | LogMissingPerformance
  | LogFailed string nat
  | LogMinuteMatch int

datatype event =
    EvLog log_msg
  | EvGet string
  | EvSleep duration
  | EvSet metric string string float64
  | EvHttpError string nat
  | EvSetHeader string string
  | EvWrite string

text \<open>
  The state the program acts on: the value of every gauge child (keyed by gauge vector
  and the labels \<^verbatim>\<open>site\<close>, \<^verbatim>\<open>strategy\<close>), the number of requests sent so far, and the
  chronological trace of everything observable.
\<close>

record world =
  gauges :: "metric \<times> string \<times> string \<Rightarrow> float64 option"
  gets :: nat
  trace :: "event list"

text \<open>The network: the outcome of the \<open>n\<close>-th request the process sends.\<close>

type_synonym net = "nat \<Rightarrow> response"

definition Log :: "log_msg \<Rightarrow> world \<Rightarrow> world" where
  "Log msg s = s\<lparr>trace := trace s @ [EvLog msg]\<rparr>"

definition Sleep :: "duration \<Rightarrow> world \<Rightarrow> world" where
  "Sleep d s = s\<lparr>trace := trace s @ [EvSleep d]\<rparr>"

definition Get :: "string \<Rightarrow> world \<Rightarrow> world" where
  "Get url s = s\<lparr>gets := Suc (gets s), trace := trace s @ [EvGet url]\<rparr>"

text \<open>
  \<^verbatim>\<open>utf8.ValidString\<close>. The first byte of an encoded rune fixes the number of
  continuation bytes and the range of the second byte; every further continuation byte
  lies in 0x80 to 0xBF. The bytes 0x80 to 0xC1 and 0xF5 to 0xFF start no rune.
\<close>

definition byte_in :: "nat \<Rightarrow> nat \<Rightarrow> char \<Rightarrow> bool" where
  "byte_in lo hi c = (lo \<le> of_char c \<and> of_char c \<le> hi)"

definition rune_start :: "char \<Rightarrow> (nat \<times> nat \<times> nat) option" where
  "rune_start c =
     (if byte_in 0x00 0x7F c then Some (0, 0, 0)
      else if byte_in 0xC2 0xDF c then Some (1, 0x80, 0xBF)
      else if byte_in 0xE0 0xE0 c then Some (2, 0xA0, 0xBF)
      else if byte_in 0xE1 0xEC c then Some (2, 0x80, 0xBF)
      else if byte_in 0xED 0xED c then Some (2, 0x80, 0x9F)
      else if byte_in 0xEE 0xEF c then Some (2, 0x80, 0xBF)
      else if byte_in 0xF0 0xF0 c then Some (3, 0x90, 0xBF)
      else if byte_in 0xF1 0xF3 c then Some (3, 0x80, 0xBF)
      else if byte_in 0xF4 0xF4 c then Some (3, 0x80, 0x8F)
      else None)"

fun ValidString :: "string \<Rightarrow> bool" where
  "ValidString [] = True"
| "ValidString (c # cs) =
     (case rune_start c of
        None \<Rightarrow> False
      | Some (n, lo, hi) \<Rightarrow>
          if n = 0 then ValidString cs
          else n \<le> length cs \<and> byte_in lo hi (hd cs) \<and>
               list_all (byte_in 0x80 0xBF) (take (n - 1) (tl cs)) \<and>
               ValidString (drop n cs))"

text \<open>
  \<^verbatim>\<open>g.With(labels)\<close> with \<^verbatim>\<open>labels = {"site": target.URL, "strategy": target.Strategy}\<close>
  panics unless every label value is valid UTF-8.
\<close>

definition valid_labels :: "target \<Rightarrow> bool" where
  "valid_labels t = (ValidString (URL t) \<and> ValidString (Strategy t))"

datatype panic = InterfaceConversion | InvalidLabelValue

text \<open>The effect of \<^verbatim>\<open>Set(v)\<close> on the gauge child of the target.\<close>

definition write_gauge :: "metric \<Rightarrow> target \<Rightarrow> float64 \<Rightarrow> world \<Rightarrow> world" where
  "write_gauge g t v s =
     s\<lparr>gauges := (gauges s)((g, URL t, Strategy t) \<mapsto> v),
       trace := trace s @ [EvSet g (URL t) (Strategy t) v]\<rparr>"

text \<open>\<^verbatim>\<open>g.With(labels).Set(v)\<close>: the panic of \<^verbatim>\<open>With\<close> comes before anything is written.\<close>

definition Set_gauge :: "metric \<Rightarrow> target \<Rightarrow> float64 \<Rightarrow> world \<Rightarrow> panic + world" where
  "Set_gauge g t v s =
     (if valid_labels t then Inr (write_gauge g t v s) else Inl InvalidLabelValue)"

text \<open>
  \<^verbatim>\<open>if v, ok := ...; ok { g.With(labels).Set(v) }\<close>: \<^verbatim>\<open>With\<close> is called only when the
  value is a number.
\<close>

definition set_if_ok :: "metric \<Rightarrow> target \<Rightarrow> float64 option \<Rightarrow> world \<Rightarrow> panic + world" where
  "set_if_ok g t r s = (case r of None \<Rightarrow> Inr s | Some v \<Rightarrow> Set_gauge g t v s)"

section \<open>The fetcher\<close>

text \<open>
  How a call leaves: by the \<^verbatim>\<open>return\<close> after a processed response, by falling out of
  the retry loop after the last attempt, or by a run-time panic.
\<close>

datatype exit = Done | GaveUp | Panicked

datatype step = Continue duration world | Exit exit world

text \<open>
  \<^verbatim>\<open>audits[k].(map[string]interface{})["numericValue"].(float64)\<close> in comma-ok form.
  Only the outer assertion is checked. The inner one is the single-value form,
  which panics when \<^verbatim>\<open>audits[k]\<close> is not a map, in particular when it is \<^verbatim>\<open>nil\<close> because
  the key is absent.
\<close>

definition audit_value :: "jmap \<Rightarrow> string \<Rightarrow> panic + float64 option" where
  "audit_value audits k =
     (case as_map (index_map audits k) of
        None \<Rightarrow> Inl InterfaceConversion
      | Some a \<Rightarrow> Inr (as_float (index_map a ''numericValue'')))"

text \<open>
  One of the four statements of lines 110 to 121,
  \<^verbatim>\<open>if v, ok := audits[k].(map[string]interface{})["numericValue"].(float64); ok { g.With(labels).Set(v) }\<close>.
  Either panic leaves the state as it was before the statement.
\<close>

definition write_audit :: "metric \<Rightarrow> string \<Rightarrow> target \<Rightarrow> jmap \<Rightarrow> world \<Rightarrow> panic + world" where
  "write_audit g k t audits s =
     (case audit_value audits k of
        Inl p \<Rightarrow> Inl p
      | Inr r \<Rightarrow> set_if_ok g t r s)"

text \<open>Lines 110 to 121: the four audits, in the order FCP, LCP, CLS, TBT.\<close>

definition extract_audits :: "target \<Rightarrow> jmap \<Rightarrow> world \<Rightarrow> exit \<times> world" where
  "extract_audits t audits s0 =
     (case write_audit FCP ''first-contentful-paint'' t audits s0 of
        Inl _ \<Rightarrow> (Panicked, s0)
      | Inr s1 \<Rightarrow>
          (case write_audit LCP ''largest-contentful-paint'' t audits s1 of
             Inl _ \<Rightarrow> (Panicked, s1)
           | Inr s2 \<Rightarrow>
               (case write_audit CLS ''cumulative-layout-shift'' t audits s2 of
                  Inl _ \<Rightarrow> (Panicked, s2)
                | Inr s3 \<Rightarrow>
                    (case write_audit TBT ''total-blocking-time'' t audits s3 of
                       Inl _ \<Rightarrow> (Panicked, s3)
                     | Inr s4 \<Rightarrow> (Done, s4)))))"

text \<open>
  The four lines that end every failed attempt:
  \<^verbatim>\<open>log...; time.Sleep(delay); delay *= 2; continue\<close>.
\<close>

definition backoff :: "log_msg \<Rightarrow> duration \<Rightarrow> world \<Rightarrow> step" where
  "backoff msg delay s = Continue (delay * 2) (Sleep delay (Log msg s))"

text \<open>
  One pass through the body of the retry loop (lines 58 to 125). The deferred
  \<^verbatim>\<open>resp.Body.Close()\<close> touches nothing that is modelled.
\<close>

definition attempt :: "net \<Rightarrow> string \<Rightarrow> target \<Rightarrow> duration \<Rightarrow> world \<Rightarrow> step" where
  "attempt nw url t delay s0 =
     (let s = Get url s0 in
      case nw (gets s0) of
        NetErr \<Rightarrow> backoff LogErrFetch delay s
      | DecodeErr \<Rightarrow> backoff LogErrDecode delay s
      | Body data \<Rightarrow>
          (case as_map (index_map data ''lighthouseResult'') of
             None \<Rightarrow> backoff LogMissingLighthouseResult delay s
           | Some result \<Rightarrow>
               (case as_map (index_map result ''categories'') of
                  None \<Rightarrow> backoff LogMissingCategories delay s
                | Some categories \<Rightarrow>
                    (case as_map (index_map categories ''performance'') of
                       None \<Rightarrow> backoff LogMissingPerformance delay s
                     | Some performance \<Rightarrow>
                         (case set_if_ok PerfScore t
                                 (as_float (index_map performance ''score'')) s of
                            Inl _ \<Rightarrow> Exit Panicked s
                          | Inr s1 \<Rightarrow>
                              (case as_map (index_map result ''audits'') of
                                 None \<Rightarrow> Exit Done s1
                               | Some audits \<Rightarrow>
                                   (case extract_audits t audits s1 of
                                      (e, s2) \<Rightarrow> Exit e s2)))))))"

definition maxRetries :: nat where
  "maxRetries = 5"

text \<open>\<^verbatim>\<open>for retries := 0; retries < maxRetries; retries++ { ... }\<close> and the log line after it.\<close>

function fetch_loop ::
  "net \<Rightarrow> string \<Rightarrow> target \<Rightarrow> nat \<Rightarrow> duration \<Rightarrow> world \<Rightarrow> exit \<times> world" where
  "fetch_loop nw url t retries delay s =
     (if retries < maxRetries then
        (case attempt nw url t delay s of
           Continue delay' s' \<Rightarrow> fetch_loop nw url t (Suc retries) delay' s'
         | Exit e s' \<Rightarrow> (e, s'))
      else (GaveUp, Log (LogFailed (URL t) maxRetries) s))"
  by pat_completeness auto
termination
  by (relation "measure (\<lambda>(nw, url, t, retries, delay, s). maxRetries - retries)") auto

text \<open>\<^verbatim>\<open>fmt.Sprintf("https://...?url=%s&strategy=%s&key=%s", target.URL, target.Strategy, apiKey)\<close>\<close>

definition api_url :: "string \<Rightarrow> target \<Rightarrow> string" where
  "api_url apiKey t =
     ''https://www.googleapis.com/pagespeedonline/v5/runPagespeed?url='' @ URL t
       @ ''&strategy='' @ Strategy t @ ''&key='' @ apiKey"

definition fetchPSIData :: "net \<Rightarrow> string \<Rightarrow> target \<Rightarrow> world \<Rightarrow> exit \<times> world" where
  "fetchPSIData nw apiKey t s =
     fetch_loop nw (api_url apiKey t) t 0 (2 * Second)
       (Log (LogFetching (URL t) (Strategy t)) s)"

section \<open>Library functions of Go used by the configuration code\<close>

text \<open>
  \<^verbatim>\<open>unicode.IsSpace\<close> holds for the runes U+0009 to U+000D, U+0020, U+0085, U+00A0,
  U+1680, U+2000 to U+200A, U+2028, U+2029, U+202F, U+205F and U+3000. A Go string is a
  sequence of bytes; these are the UTF-8 encodings of those runes.
\<close>

definition space_runes :: "string list" where
  "space_runes =
     [[CHR 0x09], [CHR 0x0A], [CHR 0x0B], [CHR 0x0C], [CHR 0x0D], [CHR 0x20],
      [CHR 0xC2, CHR 0x85], [CHR 0xC2, CHR 0xA0],
      [CHR 0xE1, CHR 0x9A, CHR 0x80],
      [CHR 0xE2, CHR 0x80, CHR 0x80], [CHR 0xE2, CHR 0x80, CHR 0x81],
      [CHR 0xE2, CHR 0x80, CHR 0x82], [CHR 0xE2, CHR 0x80, CHR 0x83],
      [CHR 0xE2, CHR 0x80, CHR 0x84], [CHR 0xE2, CHR 0x80, CHR 0x85],
      [CHR 0xE2, CHR 0x80, CHR 0x86], [CHR 0xE2, CHR 0x80, CHR 0x87],
      [CHR 0xE2, CHR 0x80, CHR 0x88], [CHR 0xE2, CHR 0x80, CHR 0x89],
      [CHR 0xE2, CHR 0x80, CHR 0x8A],
      [CHR 0xE2, CHR 0x80, CHR 0xA8], [CHR 0xE2, CHR 0x80, CHR 0xA9],
      [CHR 0xE2, CHR 0x80, CHR 0xAF],
      [CHR 0xE2, CHR 0x81, CHR 0x9F],
      [CHR 0xE3, CHR 0x80, CHR 0x80]]"

text \<open>Removes leading occurrences of the given byte sequences, as long as one matches.\<close>

function strip_leading :: "string list \<Rightarrow> string \<Rightarrow> string" where
  "strip_leading runes s =
     (case find (\<lambda>e. e \<noteq> [] \<and> take (length e) s = e) runes of
        None \<Rightarrow> s
      | Some e \<Rightarrow> strip_leading runes (drop (length e) s))"
  by pat_completeness auto
termination
proof (relation "measure (\<lambda>(runes, s). length s)")
  show "wf (measure (\<lambda>(runes, s). length s))" by simp
next
  fix runes :: "string list" and s e :: string
  assume "find (\<lambda>e. e \<noteq> [] \<and> take (length e) s = e) runes = Some e"
  then have e: "e \<noteq> []" "take (length e) s = e"
    by (auto simp: find_Some_iff)
  then have "s \<noteq> []" by auto
  with e show "((runes, drop (length e) s), (runes, s)) \<in> measure (\<lambda>(runes, s). length s)"
    by (cases e) auto
qed

text \<open>\<^verbatim>\<open>strings.TrimSpace\<close>: all leading and trailing white space removed.\<close>

definition TrimSpace :: "string \<Rightarrow> string" where
  "TrimSpace s =
     rev (strip_leading (map rev space_runes) (rev (strip_leading space_runes s)))"

text \<open>\<^verbatim>\<open>strings.Split(s, sep)\<close> for a separator of one byte.\<close>

fun Split :: "string \<Rightarrow> char \<Rightarrow> string list" where
  "Split [] sep = [[]]"
| "Split (c # cs) sep =
     (if c = sep then [] # Split cs sep
      else (case Split cs sep of [] \<Rightarrow> [[c]] | p # ps \<Rightarrow> (c # p) # ps))"

text \<open>
  \<^verbatim>\<open>strconv.Atoi\<close>: an optional sign, then one or more decimal digits and nothing else;
  a value outside \<^verbatim>\<open>int\<close> (64 bits) is an error.
\<close>

fun digits :: "string \<Rightarrow> nat \<Rightarrow> nat option" where
  "digits [] acc = Some acc"
| "digits (c # cs) acc =
     (let d = (of_char c :: nat) in
      if 48 \<le> d \<and> d \<le> 57 then digits cs (acc * 10 + (d - 48)) else None)"

definition Atoi :: "string \<Rightarrow> int option" where
  "Atoi s =
     (let (neg, ds) =
        (case s of
           [] \<Rightarrow> (False, [])
         | c # cs \<Rightarrow>
             if c = CHR ''-'' then (True, cs)
             else if c = CHR ''+'' then (False, cs)
             else (False, s))
      in if ds = [] then None
         else (case digits ds 0 of
                 None \<Rightarrow> None
               | Some n \<Rightarrow>
                   let v = (if neg then - int n else int n) in
                   if v < - (2 ^ 63) \<or> 2 ^ 63 - 1 < v then None else Some v))"

section \<open>Target expansion and minute parsing\<close>

definition strategies :: "string list" where
  "strategies = [''mobile'', ''desktop'']"

text \<open>The inner loop \<^verbatim>\<open>for _, s := range strategies { targets = append(targets, ...) }\<close>.\<close>

fun append_strategies :: "string \<Rightarrow> string list \<Rightarrow> target list \<Rightarrow> target list" where
  "append_strategies u [] targets = targets"
| "append_strategies u (s # ss) targets =
     append_strategies u ss (targets @ [\<lparr>URL = u, Strategy = s\<rparr>])"

text \<open>The outer loop \<^verbatim>\<open>for _, u := range urls\<close>, with \<^verbatim>\<open>continue\<close> on a blank entry.\<close>

fun expand_loop :: "string list \<Rightarrow> target list \<Rightarrow> target list" where
  "expand_loop [] targets = targets"
| "expand_loop (u0 # urls) targets =
     (let u = TrimSpace u0 in
      if u = [] then expand_loop urls targets
      else expand_loop urls (append_strategies u strategies targets))"

definition expandTargets :: "string list \<Rightarrow> target list" where
  "expandTargets urls = expand_loop urls []"

text \<open>
  The loop of \<^verbatim>\<open>parseMinutes\<close>. The warning for \<^verbatim>\<open>len(parts) == 0\<close> is never printed,
  since \<^verbatim>\<open>strings.Split\<close> returns at least one part, so the function is pure.
\<close>

fun minutes_loop :: "string list \<Rightarrow> int list \<Rightarrow> int list" where
  "minutes_loop [] minutes = minutes"
| "minutes_loop (p # parts) minutes =
     (case Atoi (TrimSpace p) of
        None \<Rightarrow> minutes_loop parts minutes
      | Some val \<Rightarrow>
          if val \<ge> 0 \<and> val < 60 then minutes_loop parts (minutes @ [val])
          else minutes_loop parts minutes)"

definition parseMinutes :: "string \<Rightarrow> int list" where
  "parseMinutes minArg = minutes_loop (Split minArg (CHR '','')) []"

section \<open>Scheduler and on-demand trigger\<close>

text \<open>
  One sweep: \<^verbatim>\<open>for _, t := range targets { fetchPSIData(*apiKey, t); time.Sleep(2 * time.Second) }\<close>.
  A panic inside a fetch ends the sweep (and, in a goroutine, the process).
\<close>

fun sweep :: "net \<Rightarrow> string \<Rightarrow> target list \<Rightarrow> world \<Rightarrow> exit \<times> world" where
  "sweep nw apiKey [] s = (Done, s)"
| "sweep nw apiKey (t # ts) s =
     (case fetchPSIData nw apiKey t s of
        (Panicked, s') \<Rightarrow> (Panicked, s')
      | (_, s') \<Rightarrow> sweep nw apiKey ts (Sleep (2 * Second) s'))"

text \<open>
  The body of \<^verbatim>\<open>for now := range ticker.C\<close> for one tick at minute-of-hour \<open>minute\<close>:
  the loop over \<^verbatim>\<open>fetchMinutes\<close> leaves with \<^verbatim>\<open>break\<close> after the first match.
\<close>

fun scheduler_tick ::
  "net \<Rightarrow> string \<Rightarrow> target list \<Rightarrow> int list \<Rightarrow> int \<Rightarrow> world \<Rightarrow> exit \<times> world" where
  "scheduler_tick nw apiKey targets [] minute s = (Done, s)"
| "scheduler_tick nw apiKey targets (m # ms) minute s =
     (if minute = m then sweep nw apiKey targets (Log (LogMinuteMatch m) s)
      else scheduler_tick nw apiKey targets ms minute s)"

text \<open>The parsed query of a request, in the order of the query string.\<close>

record request =
  query :: "(string \<times> string) list"

text \<open>\<^verbatim>\<open>r.URL.Query().Get(k)\<close>: the first value of the key, the empty string if there is none.\<close>

definition query_get :: "request \<Rightarrow> string \<Rightarrow> string" where
  "query_get r k = (case map_of (query r) k of None \<Rightarrow> [] | Some v \<Rightarrow> v)"

definition StatusBadRequest :: nat where
  "StatusBadRequest = 400"

definition http_Error :: "string \<Rightarrow> nat \<Rightarrow> world \<Rightarrow> world" where
  "http_Error msg code s = s\<lparr>trace := trace s @ [EvHttpError msg code]\<rparr>"

definition set_header :: "string \<Rightarrow> string \<Rightarrow> world \<Rightarrow> world" where
  "set_header k v s = s\<lparr>trace := trace s @ [EvSetHeader k v]\<rparr>"

text \<open>\<^verbatim>\<open>w.Write(b)\<close>: bytes of the response body.\<close>

definition write_body :: "string \<Rightarrow> world \<Rightarrow> world" where
  "write_body b s = s\<lparr>trace := trace s @ [EvWrite b]\<rparr>"

text \<open>
  The values the handler puts into its response map: the five package-level
  \<^verbatim>\<open>*prometheus.GaugeVec\<close> and the \<^verbatim>\<open>*http.Request\<close> itself.

  \<^verbatim>\<open>encoding/json\<close> encodes a struct by its exported fields. A \<^verbatim>\<open>GaugeVec\<close> has none, which
  gives \<^verbatim>\<open>{}\<close>. \<^verbatim>\<open>http.Request\<close> has the exported fields \<^verbatim>\<open>GetBody\<close> of a function type and
  \<^verbatim>\<open>Cancel\<close> of a channel type, which the encoder refuses with an
  \<^verbatim>\<open>UnsupportedTypeError\<close>, whatever the request holds.
\<close>

datatype go_value = GaugeVecPtr metric | RequestPtr request

datatype json_error = UnsupportedTypeError

definition marshal_value :: "go_value \<Rightarrow> json_error + string" where
  "marshal_value v =
     (case v of GaugeVecPtr g \<Rightarrow> Inr ''{}'' | RequestPtr r \<Rightarrow> Inl UnsupportedTypeError)"

text \<open>
  The members of a JSON object, \<^verbatim>\<open>"key":value\<close> separated by commas, for a map given in
  the order of its keys (the encoder sorts them); the first value that cannot be
  encoded ends the encoding with its error.
\<close>

fun marshal_members :: "(string \<times> go_value) list \<Rightarrow> json_error + string" where
  "marshal_members [] = Inr []"
| "marshal_members ((k, v) # m) =
     (case marshal_value v of
        Inl e \<Rightarrow> Inl e
      | Inr j \<Rightarrow>
          (case marshal_members m of
             Inl e \<Rightarrow> Inl e
           | Inr js \<Rightarrow>
               Inr ([CHR 0x22] @ k @ [CHR 0x22] @ '':'' @ j @
                    (if m = [] then [] else '','') @ js)))"

text \<open>
  \<^verbatim>\<open>json.NewEncoder(w).Encode(m)\<close>: the value is encoded into a buffer first; on an error
  nothing is written to \<^verbatim>\<open>w\<close> and the error is returned, otherwise the buffer and a
  newline are written.
\<close>

definition Encode :: "(string \<times> go_value) list \<Rightarrow> world \<Rightarrow> json_error option \<times> world" where
  "Encode m s =
     (case marshal_members m of
        Inl e \<Rightarrow> (Some e, s)
      | Inr js \<Rightarrow> (None, write_body (''{'' @ js @ ''}'' @ [CHR 0x0A]) s))"

text \<open>The map \<^verbatim>\<open>response\<close> of the handler, in the order of its keys.\<close>

definition response_map :: "request \<Rightarrow> (string \<times> go_value) list" where
  "response_map r =
     [(''cls'', GaugeVecPtr CLS),
      (''fcp'', GaugeVecPtr FCP),
      (''lcp'', GaugeVecPtr LCP),
      (''performance_score'', GaugeVecPtr PerfScore),
      (''rawData'', RequestPtr r),
      (''tbt'', GaugeVecPtr TBT)]"

definition executePSI :: "net \<Rightarrow> request \<Rightarrow> string \<Rightarrow> world \<Rightarrow> exit \<times> world" where
  "executePSI nw r apiKey s =
     (let url = query_get r ''url'';
          strategy = query_get r ''strategy''
      in if url = [] \<or> strategy = [] then
           (Done, http_Error ''Missing URL or strategy'' StatusBadRequest s)
         else
           (case fetchPSIData nw apiKey \<lparr>URL = url, Strategy = strategy\<rparr> s of
              (Panicked, s') \<Rightarrow> (Panicked, s')
            | (_, s') \<Rightarrow>
                (Done, snd (Encode (response_map r)
                              (set_header ''Content-Type'' ''application/json'' s')))))"

section \<open>Notions used to state the properties\<close>

text \<open>
  Following a path of keys through nested JSON objects; \<open>INil\<close> as soon as a key is absent
  or the value on the way is not an object.
\<close>

fun json_path :: "string list \<Rightarrow> iface \<Rightarrow> iface" where
  "json_path [] v = v"
| "json_path (k # ks) (IMap m) = json_path ks (index_map m k)"
| "json_path (k # ks) _ = INil"

definition body_of :: "response \<Rightarrow> iface" where
  "body_of r = (case r of Body d \<Rightarrow> IMap d | _ \<Rightarrow> INil)"

text \<open>The response holds an object at \<^verbatim>\<open>lighthouseResult.categories.performance\<close>.\<close>

definition has_performance :: "response \<Rightarrow> bool" where
  "has_performance r =
     (as_map (json_path [''lighthouseResult'', ''categories'', ''performance''] (body_of r))
        \<noteq> None)"

text \<open>The response holds an object at \<^verbatim>\<open>lighthouseResult.audits\<close>.\<close>

definition audits_of :: "response \<Rightarrow> iface" where
  "audits_of r = json_path [''lighthouseResult'', ''audits''] (body_of r)"

definition has_audits :: "response \<Rightarrow> bool" where
  "has_audits r = (as_map (audits_of r) \<noteq> None)"

text \<open>The number at \<^verbatim>\<open>lighthouseResult.categories.performance.score\<close>, if there is one.\<close>

definition score_of :: "response \<Rightarrow> float64 option" where
  "score_of r =
     as_float (json_path [''lighthouseResult'', ''categories'', ''performance'', ''score'']
                 (body_of r))"

text \<open>The log line of an attempt whose response has no performance object.\<close>

definition failure_msg :: "response \<Rightarrow> log_msg" where
  "failure_msg r =
     (case r of
        NetErr \<Rightarrow> LogErrFetch
      | DecodeErr \<Rightarrow> LogErrDecode
      | Body d \<Rightarrow>
          if as_map (json_path [''lighthouseResult''] (IMap d)) = None
          then LogMissingLighthouseResult
          else if as_map (json_path [''lighthouseResult'', ''categories''] (IMap d)) = None
          then LogMissingCategories
          else LogMissingPerformance)"

text \<open>Projections of a trace: the sleeps, the requests, the gauge writes, the fetches begun.\<close>

fun sleep_of :: "event \<Rightarrow> duration list" where
  "sleep_of (EvSleep d) = [d]"
| "sleep_of _ = []"

definition sleeps_of :: "event list \<Rightarrow> duration list" where
  "sleeps_of es = concat (map sleep_of es)"

fun get_of :: "event \<Rightarrow> string list" where
  "get_of (EvGet url) = [url]"
| "get_of _ = []"

definition gets_of :: "event list \<Rightarrow> string list" where
  "gets_of es = concat (map get_of es)"

fun set_of :: "event \<Rightarrow> (metric \<times> string \<times> string \<times> float64) list" where
  "set_of (EvSet g site strategy v) = [(g, site, strategy, v)]"
| "set_of _ = []"

definition sets_of :: "event list \<Rightarrow> (metric \<times> string \<times> string \<times> float64) list" where
  "sets_of es = concat (map set_of es)"

fun fetch_of :: "event \<Rightarrow> target list" where
  "fetch_of (EvLog (LogFetching u st)) = [\<lparr>URL = u, Strategy = st\<rparr>]"
| "fetch_of _ = []"

definition fetches_of :: "event list \<Rightarrow> target list" where
  "fetches_of es = concat (map fetch_of es)"

fun write_of :: "event \<Rightarrow> string" where
  "write_of (EvWrite b) = b"
| "write_of (EvHttpError msg code) = msg @ [CHR 0x0A]"
| "write_of _ = []"

text \<open>
  The bytes of the response body written so far (\<^verbatim>\<open>http.Error\<close> writes its message and a
  newline).
\<close>

definition body_written :: "event list \<Rightarrow> string" where
  "body_written es = concat (map write_of es)"

text \<open>The state in which one pass through the loop body ends.\<close>

fun step_world :: "step \<Rightarrow> world" where
  "step_world (Continue d s) = s"
| "step_world (Exit e s) = s"

text \<open>The Target Expander in the words of the specification.\<close>

definition expand_spec :: "string list \<Rightarrow> target list" where
  "expand_spec urls =
     concat (map (\<lambda>u. [\<lparr>URL = u, Strategy = ''mobile''\<rparr>, \<lparr>URL = u, Strategy = ''desktop''\<rparr>])
               (filter (\<lambda>u. u \<noteq> []) (map TrimSpace urls)))"

text \<open>Minute parsing in the words of the specification.\<close>

definition minute_of :: "string \<Rightarrow> int option" where
  "minute_of p =
     (case Atoi (TrimSpace p) of
        None \<Rightarrow> None
      | Some v \<Rightarrow> if 0 \<le> v \<and> v \<le> 59 then Some v else None)"

definition minutes_spec :: "string \<Rightarrow> int list" where
  "minutes_spec minArg = List.map_filter minute_of (Split minArg (CHR '',''))"

text \<open>Concrete inputs: a fresh process, a network that always answers the same, and one
  that answers from a list.\<close>

definition world0 :: world where
  "world0 = \<lparr>gauges = Map.empty, gets = 0, trace = []\<rparr>"

definition always :: "response \<Rightarrow> net" where
  "always r n = r"

definition replies :: "response list \<Rightarrow> net" where
  "replies rs n = (if n < length rs then rs ! n else NetErr)"

definition audit :: "float64 \<Rightarrow> iface" where
  "audit v = IMap [(''numericValue'', IFloat v)]"

definition lighthouse :: "jmap \<Rightarrow> response" where
  "lighthouse result = Body [(''lighthouseResult'', IMap result)]"

definition performance :: "float64 \<Rightarrow> string \<times> iface" where
  "performance v =
     (''categories'', IMap [(''performance'', IMap [(''score'', IFloat v)])])"

definition resp_empty_audits :: response where
  "resp_empty_audits = lighthouse [performance (9 / 10), (''audits'', IMap [])]"

definition resp_no_cls :: response where
  "resp_no_cls =
     lighthouse [performance (9 / 10),
       (''audits'', IMap [(''first-contentful-paint'', audit 1200),
                          (''largest-contentful-paint'', audit 2500),
                          (''total-blocking-time'', audit 150)])]"

definition resp_no_audits :: response where
  "resp_no_audits = lighthouse [performance (9 / 10)]"

definition resp_full :: "float64 \<Rightarrow> response" where
  "resp_full v =
     lighthouse [performance v,
       (''audits'', IMap [(''first-contentful-paint'', audit 1200),
                          (''largest-contentful-paint'', audit 2500),
                          (''cumulative-layout-shift'', audit (1 / 20)),
                          (''total-blocking-time'', audit 150)])]"

definition request_without_strategy :: request where
  "request_without_strategy = \<lparr>query = [(''url'', ''https://a.com'')]\<rparr>"

definition request_complete :: request where
  "request_complete = \<lparr>query = [(''url'', ''https://a.com''), (''strategy'', ''mobile'')]\<rparr>"

definition two_scores :: net where
  "two_scores = replies [resp_full (1 / 2), resp_full (9 / 10)]"

definition fail_then_full :: net where
  "fail_then_full = replies [DecodeErr, resp_full (9 / 10)]"

definition example_targets :: "target list" where
  "example_targets = expandTargets [''https://a.com'']"

definition invalid_target :: target where
  "invalid_target = \<lparr>URL = [CHR 0xFF], Strategy = ''mobile''\<rparr>"

definition example_target :: target where
  "example_target = \<lparr>URL = ''https://a.com'', Strategy = ''mobile''\<rparr>"

section \<open>Auxiliary facts\<close>

subsection \<open>State updates and trace projections\<close>

declare fetch_loop.simps [simp del]

lemma sleeps_of_append [simp]: "sleeps_of (xs @ ys) = sleeps_of xs @ sleeps_of ys"
  by (simp add: sleeps_of_def)

lemma gets_of_append [simp]: "gets_of (xs @ ys) = gets_of xs @ gets_of ys"
  by (simp add: gets_of_def)

lemma sets_of_append [simp]: "sets_of (xs @ ys) = sets_of xs @ sets_of ys"
  by (simp add: sets_of_def)

lemma fetches_of_append [simp]: "fetches_of (xs @ ys) = fetches_of xs @ fetches_of ys"
  by (simp add: fetches_of_def)

lemma body_written_append [simp]: "body_written (xs @ ys) = body_written xs @ body_written ys"
  by (simp add: body_written_def)

lemma projections_single [simp]:
  "sleeps_of [e] = sleep_of e" "gets_of [e] = get_of e" "sets_of [e] = set_of e"
  "fetches_of [e] = fetch_of e" "body_written [e] = write_of e"
  "sleeps_of [] = []" "gets_of [] = []" "sets_of [] = []" "fetches_of [] = []"
  "body_written [] = []"
  by (simp_all add: sleeps_of_def gets_of_def sets_of_def fetches_of_def body_written_def)

lemma projections_Cons:
  "sleeps_of (e # es) = sleep_of e @ sleeps_of es" "gets_of (e # es) = get_of e @ gets_of es"
  "sets_of (e # es) = set_of e @ sets_of es" "fetches_of (e # es) = fetch_of e @ fetches_of es"
  "body_written (e # es) = write_of e @ body_written es"
  by (simp_all add: sleeps_of_def gets_of_def sets_of_def fetches_of_def body_written_def)

lemma Log_simps [simp]:
  "gets (Log m s) = gets s" "gauges (Log m s) = gauges s" "trace (Log m s) = trace s @ [EvLog m]"
  by (simp_all add: Log_def)

lemma Sleep_simps [simp]:
  "gets (Sleep d s) = gets s" "gauges (Sleep d s) = gauges s"
  "trace (Sleep d s) = trace s @ [EvSleep d]"
  by (simp_all add: Sleep_def)

lemma Get_simps [simp]:
  "gets (Get url s) = Suc (gets s)" "gauges (Get url s) = gauges s"
  "trace (Get url s) = trace s @ [EvGet url]"
  by (simp_all add: Get_def)

lemma write_gauge_simps [simp]:
  "gets (write_gauge g t v s) = gets s"
  "gauges (write_gauge g t v s) = (gauges s)((g, URL t, Strategy t) \<mapsto> v)"
  "trace (write_gauge g t v s) = trace s @ [EvSet g (URL t) (Strategy t) v]"
  by (simp_all add: write_gauge_def)

subsection \<open>Gauge writes\<close>

text \<open>A gauge write that does not panic is the plain update, or nothing at all.\<close>

lemma set_if_ok_Inr:
  assumes "set_if_ok g t r s = Inr s'"
  shows "s' = (case r of None \<Rightarrow> s | Some v \<Rightarrow> write_gauge g t v s)"
  using assms by (auto simp: set_if_ok_def Set_gauge_def split: option.splits if_splits)

lemma set_if_ok_valid:
  "valid_labels t \<Longrightarrow>
   set_if_ok g t r s = Inr (case r of None \<Rightarrow> s | Some v \<Rightarrow> write_gauge g t v s)"
  by (simp add: set_if_ok_def Set_gauge_def split: option.splits)

lemma set_if_ok_props:
  assumes "set_if_ok g t r s = Inr s'"
  shows "gets s' = gets s \<and>
     (g' \<noteq> g \<longrightarrow> gauges s' (g', k) = gauges s (g', k)) \<and>
     ((site, st) \<noteq> (URL t, Strategy t) \<longrightarrow> gauges s' (g', site, st) = gauges s (g', site, st)) \<and>
     gauges s' (g, URL t, Strategy t) =
       (case r of None \<Rightarrow> gauges s (g, URL t, Strategy t) | Some v \<Rightarrow> Some v) \<and>
     sleeps_of (trace s') = sleeps_of (trace s) \<and>
     gets_of (trace s') = gets_of (trace s) \<and>
     fetches_of (trace s') = fetches_of (trace s) \<and>
     body_written (trace s') = body_written (trace s)"
  unfolding set_if_ok_Inr [OF assms]
  by (cases r) auto

lemma write_audit_props:
  assumes "write_audit g key t a s = Inr s'" and "g \<noteq> PerfScore"
  shows "gets s' = gets s \<and>
     gauges s' (PerfScore, k) = gauges s (PerfScore, k) \<and>
     ((site, st) \<noteq> (URL t, Strategy t) \<longrightarrow> gauges s' (g', site, st) = gauges s (g', site, st)) \<and>
     sleeps_of (trace s') = sleeps_of (trace s) \<and>
     gets_of (trace s') = gets_of (trace s) \<and>
     fetches_of (trace s') = fetches_of (trace s) \<and>
     body_written (trace s') = body_written (trace s)"
proof -
  from assms(1) obtain r where "set_if_ok g t r s = Inr s'"
    by (auto simp: write_audit_def split: sum.splits)
  from set_if_ok_props [OF this, of PerfScore k site st] set_if_ok_props [OF this, of g' k site st]
    assms(2)
  show ?thesis by simp
qed

lemma extract_audits_cases:
  assumes "extract_audits t a s0 = (e, s')"
  obtains (fcp) "e = Panicked" "s' = s0"
  | (lcp) "e = Panicked"
      "write_audit FCP ''first-contentful-paint'' t a s0 = Inr s'"
  | (cls) s1 where "e = Panicked"
      "write_audit FCP ''first-contentful-paint'' t a s0 = Inr s1"
      "write_audit LCP ''largest-contentful-paint'' t a s1 = Inr s'"
  | (tbt) s1 s2 where "e = Panicked"
      "write_audit FCP ''first-contentful-paint'' t a s0 = Inr s1"
      "write_audit LCP ''largest-contentful-paint'' t a s1 = Inr s2"
      "write_audit CLS ''cumulative-layout-shift'' t a s2 = Inr s'"
  | (all) s1 s2 s3 where "e = Done"
      "write_audit FCP ''first-contentful-paint'' t a s0 = Inr s1"
      "write_audit LCP ''largest-contentful-paint'' t a s1 = Inr s2"
      "write_audit CLS ''cumulative-layout-shift'' t a s2 = Inr s3"
      "write_audit TBT ''total-blocking-time'' t a s3 = Inr s'"
  using assms unfolding extract_audits_def
  by (auto split: sum.splits)

lemma extract_audits_props:
  assumes "extract_audits t a s0 = (e, s')"
  shows "e \<noteq> GaveUp \<and> gets s' = gets s0 \<and>
     gauges s' (PerfScore, k) = gauges s0 (PerfScore, k) \<and>
     ((site, st) \<noteq> (URL t, Strategy t) \<longrightarrow> gauges s' (g', site, st) = gauges s0 (g', site, st)) \<and>
     sleeps_of (trace s') = sleeps_of (trace s0) \<and>
     gets_of (trace s') = gets_of (trace s0) \<and>
     fetches_of (trace s') = fetches_of (trace s0) \<and>
     body_written (trace s') = body_written (trace s0)"
  using assms
proof (cases rule: extract_audits_cases)
  case fcp
  then show ?thesis by simp
next
  case lcp
  from write_audit_props [OF lcp(2), of k site st g'] lcp(1) show ?thesis by simp
next
  case (cls s1)
  from write_audit_props [OF cls(2), of k site st g'] write_audit_props [OF cls(3), of k site st g']
    cls(1)
  show ?thesis by simp
next
  case (tbt s1 s2)
  from write_audit_props [OF tbt(2), of k site st g'] write_audit_props [OF tbt(3), of k site st g']
    write_audit_props [OF tbt(4), of k site st g'] tbt(1)
  show ?thesis by simp
next
  case (all s1 s2 s3)
  from write_audit_props [OF all(2), of k site st g'] write_audit_props [OF all(3), of k site st g']
    write_audit_props [OF all(4), of k site st g'] write_audit_props [OF all(5), of k site st g']
    all(1)
  show ?thesis by simp
qed

subsection \<open>One attempt\<close>

lemma json_path_Cons:
  "json_path (k # ks) v =
     (case as_map v of None \<Rightarrow> INil | Some m \<Rightarrow> json_path ks (index_map m k))"
  by (cases v) auto

lemma attempt_failure:
  assumes "\<not> has_performance (nw (gets s))"
  shows "attempt nw url t delay s = backoff (failure_msg (nw (gets s))) delay (Get url s)"
proof (cases "nw (gets s)")
  case NetErr
  then show ?thesis by (simp add: attempt_def failure_msg_def)
next
  case DecodeErr
  then show ?thesis by (simp add: attempt_def failure_msg_def)
next
  case (Body d)
  with assms show ?thesis
    by (simp add: attempt_def failure_msg_def has_performance_def body_of_def json_path_Cons
        split: option.splits)
qed

lemma attempt_success:
  assumes "has_performance (nw (gets s))"
  shows "attempt nw url t delay s =
     (case set_if_ok PerfScore t (score_of (nw (gets s))) (Get url s) of
        Inl p \<Rightarrow> Exit Panicked (Get url s)
      | Inr s1 \<Rightarrow>
          (case as_map (audits_of (nw (gets s))) of
             None \<Rightarrow> Exit Done s1
           | Some audits \<Rightarrow> (case extract_audits t audits s1 of (e, s2) \<Rightarrow> Exit e s2)))"
proof (cases "nw (gets s)")
  case NetErr
  with assms show ?thesis by (simp add: has_performance_def body_of_def)
next
  case DecodeErr
  with assms show ?thesis by (simp add: has_performance_def body_of_def)
next
  case (Body d)
  with assms show ?thesis
    by (auto simp: attempt_def has_performance_def score_of_def audits_of_def body_of_def
        json_path_Cons Let_def split: option.splits sum.splits)
qed

subsection \<open>The retry loop\<close>

lemma fetch_loop_exhausted:
  "fetch_loop nw url t 5 d s = (GaveUp, Log (LogFailed (URL t) 5) s)"
  by (subst fetch_loop.simps) (simp add: maxRetries_def)

lemma fetch_loop_retry:
  assumes "retries < maxRetries" and "\<not> has_performance (nw (gets s))"
  shows "fetch_loop nw url t retries d s =
     fetch_loop nw url t (Suc retries) (2 * d)
       (Sleep d (Log (failure_msg (nw (gets s))) (Get url s)))"
  using assms by (subst fetch_loop.simps) (simp add: attempt_failure backoff_def mult.commute)

lemma fetch_loop_five_failures:
  assumes f0: "\<not> has_performance (nw (gets s))"
      and f1: "\<not> has_performance (nw (Suc (gets s)))"
      and f2: "\<not> has_performance (nw (Suc (Suc (gets s))))"
      and f3: "\<not> has_performance (nw (Suc (Suc (Suc (gets s)))))"
      and f4: "\<not> has_performance (nw (Suc (Suc (Suc (Suc (gets s))))))"
  shows "fetch_loop nw url t 0 d s =
     (GaveUp,
      s\<lparr>gets := gets s + 5,
        trace := trace s @
          [EvGet url, EvLog (failure_msg (nw (gets s))), EvSleep d,
           EvGet url, EvLog (failure_msg (nw (gets s + 1))), EvSleep (2 * d),
           EvGet url, EvLog (failure_msg (nw (gets s + 2))), EvSleep (4 * d),
           EvGet url, EvLog (failure_msg (nw (gets s + 3))), EvSleep (8 * d),
           EvGet url, EvLog (failure_msg (nw (gets s + 4))), EvSleep (16 * d),
           EvLog (LogFailed (URL t) 5)]\<rparr>)"
proof -
  define s1 where "s1 = Sleep d (Log (failure_msg (nw (gets s))) (Get url s))"
  define s2 where "s2 = Sleep (2 * d) (Log (failure_msg (nw (gets s1))) (Get url s1))"
  define s3 where "s3 = Sleep (4 * d) (Log (failure_msg (nw (gets s2))) (Get url s2))"
  define s4 where "s4 = Sleep (8 * d) (Log (failure_msg (nw (gets s3))) (Get url s3))"
  define s5 where "s5 = Sleep (16 * d) (Log (failure_msg (nw (gets s4))) (Get url s4))"
  have g1: "gets s1 = Suc (gets s)" by (simp add: s1_def)
  have g2: "gets s2 = Suc (Suc (gets s))" by (simp add: s2_def g1)
  have g3: "gets s3 = Suc (Suc (Suc (gets s)))" by (simp add: s3_def g2)
  have g4: "gets s4 = Suc (Suc (Suc (Suc (gets s))))" by (simp add: s4_def g3)
  have "fetch_loop nw url t 0 d s = fetch_loop nw url t (Suc 0) (2 * d) s1"
    unfolding s1_def by (rule fetch_loop_retry) (simp_all add: maxRetries_def f0)
  also have "\<dots> = fetch_loop nw url t (Suc (Suc 0)) (2 * (2 * d)) s2"
    unfolding s2_def by (rule fetch_loop_retry) (simp_all add: maxRetries_def f1 g1)
  also have "\<dots> = fetch_loop nw url t (Suc (Suc (Suc 0))) (2 * (2 * (2 * d))) s3"
    unfolding s3_def using fetch_loop_retry [of "Suc (Suc 0)" nw s2 url t "2 * (2 * d)"]
    by (simp add: maxRetries_def f2 g2)
  also have "\<dots> = fetch_loop nw url t (Suc (Suc (Suc (Suc 0)))) (2 * (2 * (2 * (2 * d)))) s4"
    unfolding s4_def
    using fetch_loop_retry [of "Suc (Suc (Suc 0))" nw s3 url t "2 * (2 * (2 * d))"]
    by (simp add: maxRetries_def f3 g3)
  also have "\<dots> = fetch_loop nw url t 5 (2 * (2 * (2 * (2 * (2 * d))))) s5"
    unfolding s5_def
    using fetch_loop_retry [of "Suc (Suc (Suc (Suc 0)))" nw s4 url t "2 * (2 * (2 * (2 * d)))"]
    by (simp add: maxRetries_def f4 g4 eval_nat_numeral)
  also have "\<dots> = (GaveUp, Log (LogFailed (URL t) 5) s5)"
    by (rule fetch_loop_exhausted)
  finally show ?thesis
    by (simp add: s5_def s4_def s3_def s2_def s1_def Sleep_def Log_def Get_def
        eval_nat_numeral)
qed

lemma attempt_Continue:
  assumes "attempt nw url t d s = Continue d' s1"
  shows "\<not> has_performance (nw (gets s))"
    and "d' = 2 * d"
    and "s1 = Sleep d (Log (failure_msg (nw (gets s))) (Get url s))"
proof -
  show np: "\<not> has_performance (nw (gets s))"
  proof
    assume "has_performance (nw (gets s))"
    with attempt_success [of nw s url t d] assms show False
      by (auto split: option.splits prod.splits sum.splits)
  qed
  from attempt_failure [of nw s url t d] np assms
  show "d' = 2 * d" and "s1 = Sleep d (Log (failure_msg (nw (gets s))) (Get url s))"
    by (simp_all add: backoff_def)
qed

text \<open>
  An attempt that leaves the loop: by the return, or by a panic of \<^verbatim>\<open>With\<close> or of an
  unchecked assertion on an audit entry.
\<close>

lemma attempt_Exit:
  assumes "attempt nw url t d s = Exit e s1"
  shows "has_performance (nw (gets s)) \<and> e \<noteq> GaveUp \<and> gets s1 = Suc (gets s) \<and>
     (e = Done \<longrightarrow>
        gauges s1 (PerfScore, URL t, Strategy t) =
          (case score_of (nw (gets s)) of
             None \<Rightarrow> gauges s (PerfScore, URL t, Strategy t)
           | Some v \<Rightarrow> Some v)) \<and>
     ((site, st) \<noteq> (URL t, Strategy t) \<longrightarrow> gauges s1 (g, site, st) = gauges s (g, site, st)) \<and>
     sleeps_of (trace s1) = sleeps_of (trace s) \<and>
     gets_of (trace s1) = gets_of (trace s) @ [url] \<and>
     fetches_of (trace s1) = fetches_of (trace s) \<and>
     body_written (trace s1) = body_written (trace s)"
proof -
  have hp: "has_performance (nw (gets s))"
  proof (rule ccontr)
    assume "\<not> has_performance (nw (gets s))"
    with attempt_failure [of nw s url t d] assms show False
      by (simp add: backoff_def)
  qed
  let ?r = "score_of (nw (gets s))"
  consider (label) "e = Panicked" "s1 = Get url s"
    | (none) s0 where "set_if_ok PerfScore t ?r (Get url s) = Inr s0" "e = Done" "s1 = s0"
    | (some) s0 a where "set_if_ok PerfScore t ?r (Get url s) = Inr s0"
        "extract_audits t a s0 = (e, s1)"
    using attempt_success [of nw s url t d] hp assms
    by (auto split: option.splits prod.splits sum.splits)
  then show ?thesis
  proof cases
    case label
    with hp show ?thesis by simp
  next
    case (none s0)
    from set_if_ok_props [OF none(1), of g "(URL t, Strategy t)" site st] none(2,3) hp
    show ?thesis by (simp split: option.splits)
  next
    case (some s0 a)
    from set_if_ok_props [OF some(1), of g "(URL t, Strategy t)" site st]
      extract_audits_props [OF some(2), of "(URL t, Strategy t)" site st g] hp
    show ?thesis by (simp split: option.splits)
  qed
qed

text \<open>
  What a run of the loop amounts to: either it gives up, having written nothing, or it
  ends with the first response that passes the structural checks.
\<close>

lemma fetch_loop_result:
  assumes "fetch_loop nw url t retries d s = (e, s')"
  shows "(e = GaveUp \<and> gauges s' = gauges s \<and> sets_of (trace s') = sets_of (trace s)) \<or>
         (e \<noteq> GaveUp \<and> gets s < gets s' \<and> has_performance (nw (gets s' - 1)) \<and>
          (\<forall>i. gets s \<le> i \<and> i < gets s' - 1 \<longrightarrow> \<not> has_performance (nw i)) \<and>
          (e = Done \<longrightarrow>
             gauges s' (PerfScore, URL t, Strategy t) =
               (case score_of (nw (gets s' - 1)) of
                  None \<Rightarrow> gauges s (PerfScore, URL t, Strategy t)
                | Some v \<Rightarrow> Some v)))"
  using assms
proof (induction nw url t retries d s rule: fetch_loop.induct)
  case (1 nw url t retries delay s)
  show ?case
  proof (cases "retries < maxRetries")
    case False
    with "1.prems" show ?thesis
      by (subst (asm) fetch_loop.simps) (auto simp: sets_of_def)
  next
    case True
    show ?thesis
    proof (cases "attempt nw url t delay s")
      case (Continue d' s1)
      from attempt_Continue [OF Continue]
      have np: "\<not> has_performance (nw (gets s))"
        and s1: "s1 = Sleep delay (Log (failure_msg (nw (gets s))) (Get url s))"
        by simp_all
      from "1.prems" True Continue have "fetch_loop nw url t (Suc retries) d' s1 = (e, s')"
        by (subst (asm) fetch_loop.simps) simp
      from "1.IH" [OF True Continue this]
      consider (gave_up) "e = GaveUp" "gauges s' = gauges s1"
          "sets_of (trace s') = sets_of (trace s1)"
        | (finished) "e \<noteq> GaveUp" "gets s1 < gets s'" "has_performance (nw (gets s' - 1))"
          "\<forall>i. gets s1 \<le> i \<and> i < gets s' - 1 \<longrightarrow> \<not> has_performance (nw i)"
          "e = Done \<longrightarrow>
             gauges s' (PerfScore, URL t, Strategy t) =
               (case score_of (nw (gets s' - 1)) of
                  None \<Rightarrow> gauges s1 (PerfScore, URL t, Strategy t)
                | Some v \<Rightarrow> Some v)"
        by blast
      then show ?thesis
      proof cases
        case gave_up
        then show ?thesis by (simp add: s1 projections_Cons)
      next
        case finished
        have g: "gets s1 = Suc (gets s)" "gauges s1 = gauges s"
          by (simp_all add: s1)
        have "\<not> has_performance (nw i)" if "gets s \<le> i \<and> i < gets s' - 1" for i
        proof (cases "i = gets s")
          case True
          with np show ?thesis by simp
        next
          case False
          with that have "gets s1 \<le> i \<and> i < gets s' - 1" by (simp add: g)
          with finished(4) show ?thesis by blast
        qed
        with finished g show ?thesis
          by (auto split: option.splits)
      qed
    next
      case (Exit e1 s1)
      from "1.prems" True Exit have "e = e1" "s' = s1"
        by (subst (asm) fetch_loop.simps, simp)+
      with attempt_Exit [OF Exit, of "URL t" "Strategy t" PerfScore] show ?thesis
        by auto
    qed
  qed
qed

text \<open>What no run of the loop touches, however it ends.\<close>

lemma fetch_loop_frame:
  "((site, st) \<noteq> (URL t, Strategy t) \<longrightarrow>
      gauges (snd (fetch_loop nw url t retries d s)) (g, site, st) = gauges s (g, site, st)) \<and>
   fetches_of (trace (snd (fetch_loop nw url t retries d s))) = fetches_of (trace s) \<and>
   body_written (trace (snd (fetch_loop nw url t retries d s))) = body_written (trace s)"
proof (induction nw url t retries d s rule: fetch_loop.induct)
  case (1 nw url t retries delay s)
  show ?case
  proof (cases "retries < maxRetries")
    case False
    then show ?thesis
      by (subst fetch_loop.simps)+ simp
  next
    case True
    show ?thesis
    proof (cases "attempt nw url t delay s")
      case (Continue d' s1)
      from attempt_Continue(3) [OF Continue]
      have "gauges s1 = gauges s" "fetches_of (trace s1) = fetches_of (trace s)"
        "body_written (trace s1) = body_written (trace s)"
        by (simp_all add: projections_Cons failure_msg_def split: response.splits)
      moreover have "fetch_loop nw url t retries delay s = fetch_loop nw url t (Suc retries) d' s1"
        using True Continue by (subst fetch_loop.simps) simp
      ultimately show ?thesis
        using "1.IH" [OF True Continue] by simp
    next
      case (Exit e1 s1)
      have "fetch_loop nw url t retries delay s = (e1, s1)"
        using True Exit by (subst fetch_loop.simps) simp
      with attempt_Exit [OF Exit, of site st g] show ?thesis
        by simp
    qed
  qed
qed

text \<open>The equations that evaluate a run on a concrete response.\<close>

lemmas run_defs =
  fetchPSIData_def maxRetries_def attempt_def Get_def Log_def Sleep_def world0_def
  index_map_def set_if_ok_def Set_gauge_def write_gauge_def valid_labels_def rune_start_def
  byte_in_def extract_audits_def write_audit_def audit_value_def always_def
  replies_def backoff_def lighthouse_def performance_def audit_def example_target_def
  api_url_def Second_def has_performance_def has_audits_def audits_of_def body_of_def
  score_of_def fetch_loop.simps projections_Cons

section \<open>The fetcher: responses with missing audit entries\<close>

text \<open>
  C1. The claim: for every response with an object at
  \<^verbatim>\<open>lighthouseResult.categories.performance\<close>, \<open>fetchPSIData\<close> completes without crashing,
  also when the audits map is empty or lacks an audit key. The code does not: on the
  response \<open>resp_empty_audits\<close> (performance score 0.9, \<^verbatim>\<open>"audits": {}\<close>) the first attempt
  writes the score and then panics in the unchecked type assertion on
  \<^verbatim>\<open>audits["first-contentful-paint"]\<close>.
\<close>

theorem fetch_empty_audits_panics:
  "has_performance resp_empty_audits \<and> has_audits resp_empty_audits \<and>
   fst (fetchPSIData (always resp_empty_audits) ''KEY'' example_target world0) = Panicked \<and>
   sets_of (trace (snd (fetchPSIData (always resp_empty_audits) ''KEY'' example_target world0)))
     = [(PerfScore, ''https://a.com'', ''mobile'', 9 / 10)]"
  by (simp add: run_defs resp_empty_audits_def)

text \<open>
  C2. The claim: a response with a numeric score and audits for first-contentful-paint,
  largest-contentful-paint and total-blocking-time, but none for cumulative-layout-shift,
  makes \<open>fetchPSIData\<close> write the four metrics score, FCP, LCP and TBT. The code does not:
  on \<open>resp_no_cls\<close> it writes score, FCP and LCP, then panics on the absent
  \<^verbatim>\<open>cumulative-layout-shift\<close> entry, and the TBT gauge is never written.
\<close>

theorem fetch_missing_cls_panics:
  "fst (fetchPSIData (always resp_no_cls) ''KEY'' example_target world0) = Panicked \<and>
   sets_of (trace (snd (fetchPSIData (always resp_no_cls) ''KEY'' example_target world0))) =
     [(PerfScore, ''https://a.com'', ''mobile'', 9 / 10),
      (FCP, ''https://a.com'', ''mobile'', 1200),
      (LCP, ''https://a.com'', ''mobile'', 2500)] \<and>
   gauges (snd (fetchPSIData (always resp_no_cls) ''KEY'' example_target world0))
     (TBT, ''https://a.com'', ''mobile'') = None"
  by (simp add: run_defs resp_no_cls_def)

section \<open>The fetcher: retryable failures\<close>

text \<open>
  C3, as stated: a response missing \<^verbatim>\<open>lighthouseResult.categories.performance\<close> or
  \<^verbatim>\<open>lighthouseResult.audits\<close> is a retryable failure that writes no metric. This fails for
  the audits: on \<open>resp_no_audits\<close> (a performance object, no \<^verbatim>\<open>audits\<close> key) the fetch
  returns successfully after one request, without any sleep, and has written the score.
\<close>

theorem fetch_without_audits_succeeds:
  "has_performance resp_no_audits \<and> \<not> has_audits resp_no_audits \<and>
   fst (fetchPSIData (always resp_no_audits) ''KEY'' example_target world0) = Done \<and>
   gets (snd (fetchPSIData (always resp_no_audits) ''KEY'' example_target world0)) = 1 \<and>
   sleeps_of (trace (snd (fetchPSIData (always resp_no_audits) ''KEY'' example_target world0)))
     = [] \<and>
   sets_of (trace (snd (fetchPSIData (always resp_no_audits) ''KEY'' example_target world0)))
     = [(PerfScore, ''https://a.com'', ''mobile'', 9 / 10)]"
  by (simp add: run_defs resp_no_audits_def)

text \<open>
  What is outside the amended claim: with a label value that is not valid UTF-8 the
  gauge library panics in \<^verbatim>\<open>With\<close>, so the same response ends the fetch in a panic
  before the score is written.
\<close>

lemma fetch_invalid_label_panics:
  "fst (fetchPSIData (always resp_no_audits) ''KEY'' invalid_target world0) = Panicked \<and>
   sets_of (trace (snd (fetchPSIData (always resp_no_audits) ''KEY'' invalid_target world0)))
     = []"
  by (simp add: run_defs resp_no_audits_def invalid_target_def)

text \<open>
  C3, amended. An attempt whose response has no object at
  \<^verbatim>\<open>lighthouseResult.categories.performance\<close> (transport error, undecodable body, or
  \<^verbatim>\<open>lighthouseResult\<close>, \<^verbatim>\<open>categories\<close> or \<^verbatim>\<open>performance\<close> absent or not an object) is a
  retryable failure: it sends the request, logs, sleeps the current delay, writes no
  gauge, and the loop goes on with the next attempt and the doubled delay. For a target
  whose URL and strategy are valid UTF-8, an attempt whose response has the performance
  object but no object at \<^verbatim>\<open>lighthouseResult.audits\<close> is not a failure: it writes the
  score if it is a number, writes no audit metric, and the fetch returns successfully
  without sleeping.
\<close>

theorem missing_performance_is_retried:
  "(\<not> has_performance (nw (gets s)) \<longrightarrow>
      attempt nw url t delay s =
        Continue (2 * delay)
          (s\<lparr>gets := Suc (gets s),
             trace := trace s @
               [EvGet url, EvLog (failure_msg (nw (gets s))), EvSleep delay]\<rparr>) \<and>
      (retries < maxRetries \<longrightarrow>
         fetch_loop nw url t retries delay s =
           fetch_loop nw url t (Suc retries) (2 * delay)
             (s\<lparr>gets := Suc (gets s),
                trace := trace s @
                  [EvGet url, EvLog (failure_msg (nw (gets s))), EvSleep delay]\<rparr>))) \<and>
   (has_performance (nw (gets s)) \<and> \<not> has_audits (nw (gets s)) \<and> valid_labels t \<longrightarrow>
      attempt nw url t delay s =
        Exit Done
          (case score_of (nw (gets s)) of
             None \<Rightarrow> Get url s
           | Some v \<Rightarrow> write_gauge PerfScore t v (Get url s)) \<and>
      (retries < maxRetries \<longrightarrow>
         fetch_loop nw url t retries delay s =
           (Done,
            case score_of (nw (gets s)) of
              None \<Rightarrow> Get url s
            | Some v \<Rightarrow> write_gauge PerfScore t v (Get url s))))"
proof (intro conjI impI)
  assume np: "\<not> has_performance (nw (gets s))"
  have st: "Sleep delay (Log (failure_msg (nw (gets s))) (Get url s)) =
      s\<lparr>gets := Suc (gets s),
        trace := trace s @ [EvGet url, EvLog (failure_msg (nw (gets s))), EvSleep delay]\<rparr>"
    by (simp add: Sleep_def Log_def Get_def)
  show a: "attempt nw url t delay s =
        Continue (2 * delay)
          (s\<lparr>gets := Suc (gets s),
             trace := trace s @
               [EvGet url, EvLog (failure_msg (nw (gets s))), EvSleep delay]\<rparr>)"
    using attempt_failure [of nw s url t delay] np by (simp add: backoff_def st)
  assume "retries < maxRetries"
  then show "fetch_loop nw url t retries delay s =
           fetch_loop nw url t (Suc retries) (2 * delay)
             (s\<lparr>gets := Suc (gets s),
                trace := trace s @
                  [EvGet url, EvLog (failure_msg (nw (gets s))), EvSleep delay]\<rparr>)"
    by (subst fetch_loop.simps) (simp add: a)
next
  assume h: "has_performance (nw (gets s)) \<and> \<not> has_audits (nw (gets s)) \<and> valid_labels t"
  then show a: "attempt nw url t delay s =
        Exit Done
          (case score_of (nw (gets s)) of
             None \<Rightarrow> Get url s
           | Some v \<Rightarrow> write_gauge PerfScore t v (Get url s))"
    using attempt_success [of nw s url t delay]
    by (simp add: has_audits_def set_if_ok_valid)
  assume "retries < maxRetries"
  then show "fetch_loop nw url t retries delay s =
           (Done,
            case score_of (nw (gets s)) of
              None \<Rightarrow> Get url s
            | Some v \<Rightarrow> write_gauge PerfScore t v (Get url s))"
    by (subst fetch_loop.simps) (simp add: a)
qed

theorem missing_performance_is_retried_witness:
  "attempt (always NetErr) ''u'' example_target (2 * Second) world0 =
     Continue (4 * Second)
       \<lparr>gauges = Map.empty, gets = 1,
        trace = [EvGet ''u'', EvLog LogErrFetch, EvSleep (2 * Second)]\<rparr> \<and>
   fetch_loop (always NetErr) ''u'' example_target 4 (2 * Second) world0 =
     (GaveUp,
      \<lparr>gauges = Map.empty, gets = 1,
       trace = [EvGet ''u'', EvLog LogErrFetch, EvSleep (2 * Second),
                EvLog (LogFailed ''https://a.com'' 5)]\<rparr>) \<and>
   valid_labels example_target \<and>
   fetch_loop (always resp_no_audits) ''u'' example_target 4 (2 * Second) world0 =
     (Done,
      \<lparr>gauges = [(PerfScore, ''https://a.com'', ''mobile'') \<mapsto> 9 / 10], gets = 1,
       trace = [EvGet ''u'', EvSet PerfScore ''https://a.com'' ''mobile'' (9 / 10)]\<rparr>)"
proof -
  have 1: "\<not> has_performance (always NetErr (gets world0))"
    by (simp add: always_def has_performance_def body_of_def)
  have v: "valid_labels example_target"
    by (simp add: valid_labels_def example_target_def rune_start_def byte_in_def)
  have 2: "has_performance (always resp_no_audits (gets world0)) \<and>
      \<not> has_audits (always resp_no_audits (gets world0)) \<and> valid_labels example_target"
    using v by (simp add: run_defs resp_no_audits_def)
  have sc: "score_of (always resp_no_audits (gets world0)) = Some (9 / 10)"
    by (simp add: run_defs resp_no_audits_def json_path_Cons)
  have 3: "(4::nat) < maxRetries" by (simp add: maxRetries_def)
  have 4: "fetch_loop (always NetErr) ''u'' example_target 5 (2 * (2 * Second))
      (world0\<lparr>gets := Suc (gets world0),
         trace := trace world0 @
           [EvGet ''u'', EvLog (failure_msg (always NetErr (gets world0))),
            EvSleep (2 * Second)]\<rparr>) =
     (GaveUp,
      \<lparr>gauges = Map.empty, gets = 1,
       trace = [EvGet ''u'', EvLog LogErrFetch, EvSleep (2 * Second),
                EvLog (LogFailed ''https://a.com'' 5)]\<rparr>)"
    by (simp add: fetch_loop_exhausted world0_def Log_def always_def failure_msg_def
        example_target_def)
  have a: "attempt (always NetErr) ''u'' example_target (2 * Second) world0 =
     Continue (4 * Second)
       \<lparr>gauges = Map.empty, gets = 1,
        trace = [EvGet ''u'', EvLog LogErrFetch, EvSleep (2 * Second)]\<rparr>"
    and b: "fetch_loop (always NetErr) ''u'' example_target 4 (2 * Second) world0 =
     (GaveUp,
      \<lparr>gauges = Map.empty, gets = 1,
       trace = [EvGet ''u'', EvLog LogErrFetch, EvSleep (2 * Second),
                EvLog (LogFailed ''https://a.com'' 5)]\<rparr>)"
    using missing_performance_is_retried [of "always NetErr" world0 "''u''" example_target
        "2 * Second" 4] 1 3 4
    by (simp_all add: world0_def always_def failure_msg_def eval_nat_numeral)
  have c: "fetch_loop (always resp_no_audits) ''u'' example_target 4 (2 * Second) world0 =
     (Done,
      \<lparr>gauges = [(PerfScore, ''https://a.com'', ''mobile'') \<mapsto> 9 / 10], gets = 1,
       trace = [EvGet ''u'', EvSet PerfScore ''https://a.com'' ''mobile'' (9 / 10)]\<rparr>)"
    using missing_performance_is_retried [of "always resp_no_audits" world0 "''u''"
        example_target "2 * Second" 4] 2 3
    by (simp add: sc) (simp add: world0_def write_gauge_def Get_def example_target_def)
  from a b c v show ?thesis by simp
qed

text \<open>
  C4. If each of the next five responses lacks the performance object (every attempt
  fails), \<open>fetchPSIData\<close> sends exactly five requests, sleeps 2s, 4s, 8s, 16s and 32s
  (one sleep after each failed attempt, the delay doubling from 2s), then logs the
  failure and returns normally, without a panic; no gauge is written and the gauge
  values are those from before the call.
\<close>

theorem fetch_gives_up_after_five_failures:
  assumes "\<forall>i<5. \<not> has_performance (nw (gets s + i))"
  shows "fst (fetchPSIData nw apiKey t s) = GaveUp \<and>
     gets (snd (fetchPSIData nw apiKey t s)) = gets s + 5 \<and>
     gets_of (trace (snd (fetchPSIData nw apiKey t s))) =
       gets_of (trace s) @ replicate 5 (api_url apiKey t) \<and>
     sleeps_of (trace (snd (fetchPSIData nw apiKey t s))) =
       sleeps_of (trace s) @ [2 * Second, 4 * Second, 8 * Second, 16 * Second, 32 * Second] \<and>
     gauges (snd (fetchPSIData nw apiKey t s)) = gauges s \<and>
     sets_of (trace (snd (fetchPSIData nw apiKey t s))) = sets_of (trace s) \<and>
     last (trace (snd (fetchPSIData nw apiKey t s))) = EvLog (LogFailed (URL t) 5)"
proof -
  let ?s0 = "Log (LogFetching (URL t) (Strategy t)) s"
  have f: "\<not> has_performance (nw (gets ?s0))"
    "\<not> has_performance (nw (Suc (gets ?s0)))"
    "\<not> has_performance (nw (Suc (Suc (gets ?s0))))"
    "\<not> has_performance (nw (Suc (Suc (Suc (gets ?s0)))))"
    "\<not> has_performance (nw (Suc (Suc (Suc (Suc (gets ?s0))))))"
    using assms [rule_format, of 0] assms [rule_format, of 1] assms [rule_format, of 2]
      assms [rule_format, of 3] assms [rule_format, of 4]
    by (simp_all add: eval_nat_numeral)
  show ?thesis
    unfolding fetchPSIData_def fetch_loop_five_failures [OF f]
    by (simp add: projections_Cons eval_nat_numeral)
qed

theorem fetch_gives_up_after_five_failures_witness:
  "fst (fetchPSIData (always NetErr) ''KEY'' example_target world0) = GaveUp \<and>
   gets (snd (fetchPSIData (always NetErr) ''KEY'' example_target world0)) = 5 \<and>
   sleeps_of (trace (snd (fetchPSIData (always NetErr) ''KEY'' example_target world0))) =
     [2000000000, 4000000000, 8000000000, 16000000000, 32000000000] \<and>
   sets_of (trace (snd (fetchPSIData (always NetErr) ''KEY'' example_target world0))) = []"
proof -
  have "\<forall>i<5. \<not> has_performance (always NetErr (gets world0 + i))"
    by (simp add: always_def has_performance_def body_of_def)
  from fetch_gives_up_after_five_failures [OF this, of "''KEY''" example_target]
  show ?thesis by (simp add: world0_def Second_def)
qed

section \<open>The fetcher: overwriting and frame\<close>

lemma fetchPSIData_Done:
  assumes "fetchPSIData nw apiKey t s = (Done, s')"
  shows "gets s < gets s'" and "has_performance (nw (gets s' - 1))"
    and "gauges s' (PerfScore, URL t, Strategy t) =
           (case score_of (nw (gets s' - 1)) of
              None \<Rightarrow> gauges s (PerfScore, URL t, Strategy t)
            | Some v \<Rightarrow> Some v)"
  using fetch_loop_result [OF assms [unfolded fetchPSIData_def]]
  by (simp_all split: option.splits)

lemma fetchPSIData_frame:
  assumes "fetchPSIData nw apiKey t s = (e, s')" and "(site, st) \<noteq> (URL t, Strategy t)"
  shows "gauges s' (g, site, st) = gauges s (g, site, st)"
  using fetch_loop_frame
    [where t = t and nw = nw and url = "api_url apiKey t" and retries = 0 and d = "2 * Second"
       and s = "Log (LogFetching (URL t) (Strategy t)) s" and site = site and st = st and g = g]
    assms
  by (simp add: fetchPSIData_def)

text \<open>
  C9. Two runs of \<open>fetchPSIData\<close> in succession for the same target, both ending in the
  successful return, where the response accepted by the first run (the last request
  it sent) carries the numeric score \<open>v1\<close> and the one accepted by the second run the
  score \<open>v2\<close>: after the first run the score gauge of the target holds \<open>v1\<close>, after the
  second it holds \<open>v2\<close>, and the gauges of every other (site, strategy) pair are what
  they were before the two runs.
\<close>

theorem second_fetch_overwrites_score:
  assumes "fetchPSIData nw apiKey t s0 = (Done, s1)"
      and "fetchPSIData nw apiKey t s1 = (Done, s2)"
      and "score_of (nw (gets s1 - 1)) = Some v1"
      and "score_of (nw (gets s2 - 1)) = Some v2"
  shows "gauges s1 (PerfScore, URL t, Strategy t) = Some v1 \<and>
         gauges s2 (PerfScore, URL t, Strategy t) = Some v2 \<and>
         (\<forall>g site st. (site, st) \<noteq> (URL t, Strategy t) \<longrightarrow>
            gauges s2 (g, site, st) = gauges s0 (g, site, st))"
proof (intro conjI allI impI)
  show "gauges s1 (PerfScore, URL t, Strategy t) = Some v1"
    using fetchPSIData_Done(3) [OF assms(1)] assms(3) by simp
  show "gauges s2 (PerfScore, URL t, Strategy t) = Some v2"
    using fetchPSIData_Done(3) [OF assms(2)] assms(4) by simp
next
  fix g site st
  assume other: "(site, st) \<noteq> (URL t, Strategy t)"
  have "gauges s2 (g, site, st) = gauges s1 (g, site, st)"
    using assms(2) other by (rule fetchPSIData_frame)
  also have "\<dots> = gauges s0 (g, site, st)"
    using assms(1) other by (rule fetchPSIData_frame)
  finally show "gauges s2 (g, site, st) = gauges s0 (g, site, st)" .
qed

theorem second_fetch_overwrites_score_witness:
  "fst (fetchPSIData two_scores ''KEY'' example_target world0) = Done \<and>
   gauges (snd (fetchPSIData two_scores ''KEY'' example_target world0))
     (PerfScore, ''https://a.com'', ''mobile'') = Some (1 / 2) \<and>
   fst (fetchPSIData two_scores ''KEY'' example_target
          (snd (fetchPSIData two_scores ''KEY'' example_target world0))) = Done \<and>
   gauges (snd (fetchPSIData two_scores ''KEY'' example_target
                  (snd (fetchPSIData two_scores ''KEY'' example_target world0))))
     (PerfScore, ''https://a.com'', ''mobile'') = Some (9 / 10) \<and>
   gauges (snd (fetchPSIData two_scores ''KEY'' example_target
                  (snd (fetchPSIData two_scores ''KEY'' example_target world0))))
     (PerfScore, ''https://b.com'', ''mobile'') = None"
proof -
  let ?s1 = "snd (fetchPSIData two_scores ''KEY'' example_target world0)"
  let ?s2 = "snd (fetchPSIData two_scores ''KEY'' example_target ?s1)"
  have d1: "fst (fetchPSIData two_scores ''KEY'' example_target world0) = Done"
    by (simp add: run_defs two_scores_def resp_full_def)
  then have r1: "fetchPSIData two_scores ''KEY'' example_target world0 = (Done, ?s1)"
    by (simp add: prod_eq_iff)
  have g1: "gets ?s1 = 1"
    by (simp add: run_defs two_scores_def resp_full_def)
  have d2: "fst (fetchPSIData two_scores ''KEY'' example_target ?s1) = Done"
    by (simp add: run_defs two_scores_def resp_full_def)
  then have r2: "fetchPSIData two_scores ''KEY'' example_target ?s1 = (Done, ?s2)"
    by (simp add: prod_eq_iff)
  have g2: "gets ?s2 = 2"
    by (simp add: run_defs two_scores_def resp_full_def)
  have v1: "score_of (two_scores (gets ?s1 - 1)) = Some (1 / 2)"
    unfolding g1 by (simp add: run_defs two_scores_def resp_full_def json_path_Cons)
  have v2: "score_of (two_scores (gets ?s2 - 1)) = Some (9 / 10)"
    unfolding g2 by (simp add: run_defs two_scores_def resp_full_def json_path_Cons)
  have w0: "gauges world0 (PerfScore, ''https://b.com'', ''mobile'') = None"
    by (simp add: world0_def)
  have other: "(''https://b.com'', ''mobile'') \<noteq> (URL example_target, Strategy example_target)"
    by (simp add: example_target_def)
  from second_fetch_overwrites_score [OF r1 r2 v1 v2]
  have "gauges ?s1 (PerfScore, URL example_target, Strategy example_target) = Some (1 / 2)"
    and "gauges ?s2 (PerfScore, URL example_target, Strategy example_target) = Some (9 / 10)"
    and "gauges ?s2 (PerfScore, ''https://b.com'', ''mobile'') =
         gauges world0 (PerfScore, ''https://b.com'', ''mobile'')"
    using other by blast+
  with d1 d2 w0 show ?thesis
    by (simp add: example_target_def)
qed

text \<open>
  C10. An attempt whose response fails the structural checks (transport error, decode
  error, or no object at \<^verbatim>\<open>lighthouseResult.categories.performance\<close>) writes no gauge:
  the gauge values and the list of gauge writes after the attempt are those before it,
  whatever the state and the delay, hence whatever the attempt number. And a run of the
  retry loop, started at any attempt number, that changed a gauge or recorded a write
  did not give up, and its last request was answered by a response that passed the
  checks, all its earlier requests by responses that failed them.
\<close>

theorem failed_attempt_writes_no_gauge:
  "(\<not> has_performance (nw (gets s)) \<longrightarrow>
      gauges (step_world (attempt nw url t delay s)) = gauges s \<and>
      sets_of (trace (step_world (attempt nw url t delay s))) = sets_of (trace s)) \<and>
   (fetch_loop nw url t retries delay s = (e, s') \<and>
    (gauges s' \<noteq> gauges s \<or> sets_of (trace s') \<noteq> sets_of (trace s)) \<longrightarrow>
      e \<noteq> GaveUp \<and> gets s < gets s' \<and> has_performance (nw (gets s' - 1)) \<and>
      (\<forall>i. gets s \<le> i \<and> i < gets s' - 1 \<longrightarrow> \<not> has_performance (nw i)))"
proof (intro conjI impI)
  assume np: "\<not> has_performance (nw (gets s))"
  then have a: "attempt nw url t delay s =
      backoff (failure_msg (nw (gets s))) delay (Get url s)"
    by (rule attempt_failure)
  show "gauges (step_world (attempt nw url t delay s)) = gauges s"
    by (simp add: a backoff_def)
  show "sets_of (trace (step_world (attempt nw url t delay s))) = sets_of (trace s)"
    by (simp add: a backoff_def projections_Cons)
next
  assume h: "fetch_loop nw url t retries delay s = (e, s') \<and>
    (gauges s' \<noteq> gauges s \<or> sets_of (trace s') \<noteq> sets_of (trace s))"
  then have run: "fetch_loop nw url t retries delay s = (e, s')" by simp
  from fetch_loop_result [OF run] h
  have r: "e \<noteq> GaveUp \<and> gets s < gets s' \<and> has_performance (nw (gets s' - 1)) \<and>
      (\<forall>i. gets s \<le> i \<and> i < gets s' - 1 \<longrightarrow> \<not> has_performance (nw i))"
    by blast
  from r show "e \<noteq> GaveUp" by simp
  from r show "gets s < gets s'" by simp
  from r show "has_performance (nw (gets s' - 1))" by simp
  from r show "\<forall>i. gets s \<le> i \<and> i < gets s' - 1 \<longrightarrow> \<not> has_performance (nw i)" by simp
qed

theorem failed_attempt_writes_no_gauge_witness:
  "gauges (step_world (attempt fail_then_full ''u'' example_target (2 * Second) world0)) =
     gauges world0 \<and>
   sets_of (trace (step_world (attempt fail_then_full ''u'' example_target (2 * Second) world0)))
     = [] \<and>
   fst (fetch_loop fail_then_full ''u'' example_target 0 (2 * Second) world0) = Done \<and>
   gets (snd (fetch_loop fail_then_full ''u'' example_target 0 (2 * Second) world0)) = 2 \<and>
   has_performance (fail_then_full 1) \<and> \<not> has_performance (fail_then_full 0)"
proof -
  let ?r = "fetch_loop fail_then_full ''u'' example_target 0 (2 * Second) world0"
  have np: "\<not> has_performance (fail_then_full (gets world0))"
    by (simp add: fail_then_full_def replies_def world0_def has_performance_def body_of_def)
  have d: "fst ?r = Done"
    by (simp add: run_defs fail_then_full_def resp_full_def)
  then have run: "?r = (Done, snd ?r)"
    by (simp add: prod_eq_iff)
  have g: "gets (snd ?r) = 2"
    by (simp add: run_defs fail_then_full_def resp_full_def)
  have ch: "sets_of (trace (snd ?r)) \<noteq> sets_of (trace world0)"
    by (simp add: run_defs fail_then_full_def resp_full_def)
  have z: "sets_of (trace world0) = []" "gets world0 = 0"
    by (simp_all add: world0_def)
  from failed_attempt_writes_no_gauge
    [of fail_then_full world0 "''u''" example_target "2 * Second" 0 Done "snd ?r"]
    np run ch
  have "gauges (step_world (attempt fail_then_full ''u'' example_target (2 * Second) world0)) =
     gauges world0"
    and "sets_of (trace (step_world (attempt fail_then_full ''u'' example_target (2 * Second)
       world0))) = sets_of (trace world0)"
    and "has_performance (fail_then_full (gets (snd ?r) - 1))"
    and "\<not> has_performance (fail_then_full 0)"
    by (simp_all add: z)
  with d g z show ?thesis
    by simp
qed

section \<open>Target expansion\<close>

lemma append_strategies_eq:
  "append_strategies u ss targets = targets @ map (\<lambda>s. \<lparr>URL = u, Strategy = s\<rparr>) ss"
  by (induction ss arbitrary: targets) simp_all

lemma expand_loop_eq: "expand_loop urls targets = targets @ expand_spec urls"
proof (induction urls arbitrary: targets)
  case Nil
  show ?case by (simp add: expand_spec_def)
next
  case (Cons u0 urls)
  show ?case
  proof (cases "TrimSpace u0 = []")
    case True
    then show ?thesis using Cons.IH [of targets] by (simp add: expand_spec_def)
  next
    case False
    then show ?thesis
      using Cons.IH [of "append_strategies (TrimSpace u0) strategies targets"]
      by (simp add: expand_spec_def append_strategies_eq strategies_def Let_def)
  qed
qed

text \<open>
  C5. For every list of raw URL strings, \<open>expandTargets\<close> returns one target per
  non-blank trimmed URL and strategy, in the input order of the URLs and with the
  strategies in the order mobile, desktop; entries that are blank after trimming are
  dropped. The input \<^verbatim>\<open>["https://a.com", " ", "https://b.com "]\<close> yields the four targets
  of the two trimmed URLs.
\<close>

theorem expandTargets_cross_product:
  "expandTargets urls = expand_spec urls \<and>
   expandTargets [''https://a.com'', '' '', ''https://b.com ''] =
     [\<lparr>URL = ''https://a.com'', Strategy = ''mobile''\<rparr>,
      \<lparr>URL = ''https://a.com'', Strategy = ''desktop''\<rparr>,
      \<lparr>URL = ''https://b.com'', Strategy = ''mobile''\<rparr>,
      \<lparr>URL = ''https://b.com'', Strategy = ''desktop''\<rparr>]"
proof
  show "expandTargets urls = expand_spec urls"
    using expand_loop_eq [of urls "[]"] by (simp add: expandTargets_def)
next
  show "expandTargets [''https://a.com'', '' '', ''https://b.com ''] =
     [\<lparr>URL = ''https://a.com'', Strategy = ''mobile''\<rparr>,
      \<lparr>URL = ''https://a.com'', Strategy = ''desktop''\<rparr>,
      \<lparr>URL = ''https://b.com'', Strategy = ''mobile''\<rparr>,
      \<lparr>URL = ''https://b.com'', Strategy = ''desktop''\<rparr>]"
    by (simp add: expandTargets_def strategies_def TrimSpace_def space_runes_def Let_def)
qed

section \<open>Minute parsing\<close>

text \<open>The warning of \<open>parseMinutes\<close> is unreachable: there is always at least one part.\<close>

lemma Split_not_Nil: "Split s sep \<noteq> []"
  by (induction s) (auto split: list.splits)

lemma minutes_loop_eq:
  "minutes_loop parts minutes = minutes @ List.map_filter minute_of parts"
proof (induction parts arbitrary: minutes)
  case Nil
  show ?case by simp
next
  case (Cons p parts)
  show ?case
  proof (cases "minute_of p")
    case None
    then show ?thesis using Cons.IH [of minutes]
      by (auto simp: minute_of_def split: option.splits if_splits)
  next
    case (Some v)
    then show ?thesis using Cons.IH [of "minutes @ [v]"] Cons.IH [of minutes]
      by (auto simp: minute_of_def split: option.splits if_splits)
  qed
qed

text \<open>
  C6. For every comma-separated string, \<open>parseMinutes\<close> keeps exactly the entries that,
  after trimming, parse as an integer from 0 to 59, in their order, and discards all
  others. The input \<^verbatim>\<open>"0,30,70,-1, 15"\<close> yields 0, 30 and 15.
\<close>

theorem parseMinutes_keeps_valid:
  "parseMinutes minArg = minutes_spec minArg \<and>
   parseMinutes ''0,30,70,-1, 15'' = [0, 30, 15] \<and>
   set (parseMinutes ''0,30,70,-1, 15'') = {0, 30, 15}"
proof -
  have general: "parseMinutes minArg = minutes_spec minArg"
    using minutes_loop_eq [of "Split minArg (CHR '','')" "[]"]
    by (simp add: parseMinutes_def minutes_spec_def)
  have example: "parseMinutes ''0,30,70,-1, 15'' = [0, 30, 15]"
    by (simp add: parseMinutes_def Atoi_def TrimSpace_def space_runes_def)
  from general example show ?thesis by auto
qed

section \<open>The scheduler\<close>

lemma fetchPSIData_fetches:
  "fetches_of (trace (snd (fetchPSIData nw apiKey t s))) = fetches_of (trace s) @ [t]"
  using fetch_loop_frame
    [where t = t and nw = nw and url = "api_url apiKey t" and retries = 0 and d = "2 * Second"
       and s = "Log (LogFetching (URL t) (Strategy t)) s"]
  by (simp add: fetchPSIData_def)

text \<open>A sweep that no panic cuts short calls the fetcher once per target, in order.\<close>

lemma sweep_fetches:
  "fst (sweep nw apiKey ts s) \<noteq> Panicked \<Longrightarrow>
   fetches_of (trace (snd (sweep nw apiKey ts s))) = fetches_of (trace s) @ ts"
proof (induction ts arbitrary: s)
  case Nil
  show ?case by simp
next
  case (Cons t ts)
  obtain e s1 where f: "fetchPSIData nw apiKey t s = (e, s1)"
    by (cases "fetchPSIData nw apiKey t s")
  with Cons.prems have ne: "e \<noteq> Panicked"
    by (cases e) auto
  with f have sw: "sweep nw apiKey (t # ts) s = sweep nw apiKey ts (Sleep (2 * Second) s1)"
    by (cases e) auto
  from fetchPSIData_fetches [of nw apiKey t s] f
  have "fetches_of (trace s1) = fetches_of (trace s) @ [t]" by simp
  with Cons.IH [of "Sleep (2 * Second) s1"] Cons.prems sw show ?case
    by simp
qed

text \<open>
  The minute match itself: one sweep when the minute is among the configured ones, also
  when it is listed more than once, and nothing otherwise.
\<close>

lemma scheduler_tick_eq:
  "scheduler_tick nw apiKey targets fetchMinutes minute s =
     (if minute \<in> set fetchMinutes
      then sweep nw apiKey targets (Log (LogMinuteMatch minute) s)
      else (Done, s))"
  by (induction fetchMinutes) auto

lemma tick_fetches_when_no_panic:
  assumes "fst (scheduler_tick nw apiKey targets fetchMinutes minute s) \<noteq> Panicked"
  shows "fetches_of (trace (snd (scheduler_tick nw apiKey targets fetchMinutes minute s))) =
        fetches_of (trace s) @ (if minute \<in> set fetchMinutes then targets else [])"
  using assms sweep_fetches [of nw apiKey targets "Log (LogMinuteMatch minute) s"]
  by (simp add: scheduler_tick_eq split: if_splits)

text \<open>
  C7. The claim: on a tick whose minute equals a configured trigger minute exactly one
  full sweep runs, with one fetcher call per target in the order of the target list,
  and none runs otherwise. The minute match is as claimed (\<open>scheduler_tick_eq\<close>), and a
  sweep that is not cut short is full (\<open>tick_fetches_when_no_panic\<close>). But the code does
  not always run the sweep to its end: with the trigger minutes 0 and 30, the two
  targets of \<^verbatim>\<open>https://a.com\<close> and a network that answers with \<open>resp_empty_audits\<close>, the
  tick at minute 30 panics inside the first fetch, in the unchecked type assertion on
  the audit entry, and the second target is never fetched.
\<close>

theorem tick_sweep_cut_short_by_panic:
  "example_targets =
     [\<lparr>URL = ''https://a.com'', Strategy = ''mobile''\<rparr>,
      \<lparr>URL = ''https://a.com'', Strategy = ''desktop''\<rparr>] \<and>
   fst (scheduler_tick (always resp_empty_audits) ''KEY'' example_targets [0, 30] 30 world0)
     = Panicked \<and>
   fetches_of (trace (snd (scheduler_tick (always resp_empty_audits) ''KEY''
       example_targets [0, 30] 30 world0))) =
     [\<lparr>URL = ''https://a.com'', Strategy = ''mobile''\<rparr>]"
proof -
  have t: "example_targets =
     [\<lparr>URL = ''https://a.com'', Strategy = ''mobile''\<rparr>,
      \<lparr>URL = ''https://a.com'', Strategy = ''desktop''\<rparr>]"
    by (simp add: example_targets_def expandTargets_def strategies_def TrimSpace_def
        space_runes_def Let_def)
  show ?thesis
    unfolding t by (simp add: run_defs resp_empty_audits_def fetches_of_def)
qed

section \<open>The on-demand trigger\<close>

text \<open>
  A request whose \<^verbatim>\<open>url\<close> or \<^verbatim>\<open>strategy\<close> parameter is missing or empty is answered
  with status 400 and nothing else happens: no request is sent, no gauge is written.
\<close>

lemma executePSI_missing_parameter:
  assumes "query_get r ''url'' = [] \<or> query_get r ''strategy'' = []"
  shows "executePSI nw r apiKey s =
     (Done, s\<lparr>trace := trace s @ [EvHttpError ''Missing URL or strategy'' 400]\<rparr>)"
  using assms
  by (auto simp: executePSI_def http_Error_def StatusBadRequest_def Let_def)

lemma execute_without_strategy:
  "executePSI nw request_without_strategy ''KEY'' world0 =
     (Done, \<lparr>gauges = Map.empty, gets = 0,
             trace = [EvHttpError ''Missing URL or strategy'' 400]\<rparr>)"
  using executePSI_missing_parameter [of request_without_strategy nw "''KEY''" world0]
  by (simp add: query_get_def request_without_strategy_def world0_def)

text \<open>The encoder refuses every response map the handler can build.\<close>

lemma Encode_response_map:
  "Encode (response_map r) s = (Some UnsupportedTypeError, s)"
  by (simp add: Encode_def response_map_def marshal_value_def)

text \<open>
  With both parameters present the handler runs the fetch first and then only sets the
  content type: no byte of a body is written, whatever the fetch did.
\<close>

lemma executePSI_writes_no_body:
  assumes "query_get r ''url'' \<noteq> []" and "query_get r ''strategy'' \<noteq> []"
  shows "body_written (trace (snd (executePSI nw r apiKey s))) = body_written (trace s)"
proof -
  let ?t = "\<lparr>URL = query_get r ''url'', Strategy = query_get r ''strategy''\<rparr>"
  obtain e s' where f: "fetchPSIData nw apiKey ?t s = (e, s')"
    by (cases "fetchPSIData nw apiKey ?t s")
  from fetch_loop_frame
    [where t = ?t and nw = nw and url = "api_url apiKey ?t" and retries = 0
       and d = "2 * Second" and s = "Log (LogFetching (URL ?t) (Strategy ?t)) s"] f
  have "body_written (trace s') = body_written (trace s)"
    by (simp add: fetchPSIData_def)
  with assms f show ?thesis
    by (cases e)
      (simp_all add: executePSI_def Let_def Encode_response_map set_header_def)
qed

text \<open>
  C8. The claim: a request with a missing \<^verbatim>\<open>url\<close> or \<^verbatim>\<open>strategy\<close> gets status 400 without
  any fetch or gauge write, and one with both runs the fetcher and returns a JSON body
  once the fetch has completed. The first half holds (\<open>executePSI_missing_parameter\<close>).
  The second does not: for the complete request and a fully valid response the fetch
  succeeds and the handler sets the JSON content type, but the encoder fails on the
  \<^verbatim>\<open>rawData\<close> entry, the \<^verbatim>\<open>*http.Request\<close>, and the handler ignores the error: the body
  stays empty.
\<close>

theorem execute_returns_no_json_body:
  "query_get request_complete ''url'' = ''https://a.com'' \<and>
   query_get request_complete ''strategy'' = ''mobile'' \<and>
   fst (executePSI (always (resp_full (9 / 10))) request_complete ''KEY'' world0) = Done \<and>
   fst (Encode (response_map request_complete) world0) = Some UnsupportedTypeError \<and>
   body_written
     (trace (snd (executePSI (always (resp_full (9 / 10))) request_complete ''KEY'' world0)))
     = [] \<and>
   trace (snd (executePSI (always (resp_full (9 / 10))) request_complete ''KEY'' world0)) =
     [EvLog (LogFetching ''https://a.com'' ''mobile''),
      EvGet (api_url ''KEY'' example_target),
      EvSet PerfScore ''https://a.com'' ''mobile'' (9 / 10),
      EvSet FCP ''https://a.com'' ''mobile'' 1200,
      EvSet LCP ''https://a.com'' ''mobile'' 2500,
      EvSet CLS ''https://a.com'' ''mobile'' (1 / 20),
      EvSet TBT ''https://a.com'' ''mobile'' 150,
      EvSetHeader ''Content-Type'' ''application/json'']"
proof -
  have q: "query_get request_complete ''url'' = ''https://a.com''"
    "query_get request_complete ''strategy'' = ''mobile''"
    by (simp_all add: query_get_def request_complete_def)
  have e: "fst (Encode (response_map request_complete) world0) = Some UnsupportedTypeError"
    by (simp add: Encode_response_map)
  have r: "executePSI (always (resp_full (9 / 10))) request_complete ''KEY'' world0 =
     (Done,
      \<lparr>gauges = [(PerfScore, ''https://a.com'', ''mobile'') \<mapsto> 9 / 10,
                 (FCP, ''https://a.com'', ''mobile'') \<mapsto> 1200,
                 (LCP, ''https://a.com'', ''mobile'') \<mapsto> 2500,
                 (CLS, ''https://a.com'', ''mobile'') \<mapsto> 1 / 20,
                 (TBT, ''https://a.com'', ''mobile'') \<mapsto> 150],
       gets = 1,
       trace =
         [EvLog (LogFetching ''https://a.com'' ''mobile''),
          EvGet (api_url ''KEY'' example_target),
          EvSet PerfScore ''https://a.com'' ''mobile'' (9 / 10),
          EvSet FCP ''https://a.com'' ''mobile'' 1200,
          EvSet LCP ''https://a.com'' ''mobile'' 2500,
          EvSet CLS ''https://a.com'' ''mobile'' (1 / 20),
          EvSet TBT ''https://a.com'' ''mobile'' 150,
          EvSetHeader ''Content-Type'' ''application/json'']\<rparr>)"
    by (simp add: executePSI_def q Let_def Encode_response_map set_header_def run_defs
        resp_full_def)
  show ?thesis
    unfolding r by (simp add: q e projections_Cons)
qed

end
